theory Spec2Isabelle
  imports Complex_Main "HOL-Library.AList" "HOL-Library.Sublist"
begin

section \<open>Text chunker (app/utils/text_processor.py)\<close>

text \<open>
  Python strings are sequences of code points; a \<^typ>\<open>char\<close> stands for a code point
  below 256. The tokenizer is the tiktoken library, which is not part of the repository:
  every size check of the chunker has the form \<^verbatim>\<open>len(self.encoding.encode(x))\<close>, and
  that composite is the parameter \<open>tok\<close> of the functions below.
\<close>

type_synonym tokenizer = "string \<Rightarrow> nat"

definition is_space :: "char \<Rightarrow> bool" where
  \<comment> \<open>\<^verbatim>\<open>\s\<close> of a Python str pattern, and the class used by \<^verbatim>\<open>str.strip\<close> and \<^verbatim>\<open>str.split\<close>\<close>
  "is_space c \<longleftrightarrow>
     (of_char c :: nat) \<in> {9, 10, 11, 12, 13, 28, 29, 30, 31, 32, 133, 160}"

definition is_control :: "char \<Rightarrow> bool" where
  \<comment> \<open>the class \<^verbatim>\<open>[\x00-\x08\x0b-\x0c\x0e-\x1f\x7f-\x9f]\<close>\<close>
  "is_control c \<longleftrightarrow>
     (let n = (of_char c :: nat)
      in n \<le> 8 \<or> n = 11 \<or> n = 12 \<or> (14 \<le> n \<and> n \<le> 31) \<or> (127 \<le> n \<and> n \<le> 159))"

fun collapse_ws :: "bool \<Rightarrow> string \<Rightarrow> string" where
  \<comment> \<open>\<^verbatim>\<open>re.sub(r'\s+', ' ', text)\<close>; the flag says that the previous character was whitespace\<close>
  "collapse_ws prev [] = []"
| "collapse_ws prev (c # cs) =
     (if is_space c
      then (if prev then collapse_ws True cs else CHR '' '' # collapse_ws True cs)
      else c # collapse_ws False cs)"

definition strip :: "string \<Rightarrow> string" where
  "strip s = rev (dropWhile is_space (rev (dropWhile is_space s)))"

definition clean_text :: "string \<Rightarrow> string" where
  \<comment> \<open>the utf-8 encode/decode round trip drops lone surrogates only, none of which is below 256\<close>
  "clean_text text =
     (if text = [] then []
      else strip (filter (\<lambda>c. \<not> is_control c) (collapse_ws False text)))"

definition sentence_end :: "char set" where
  "sentence_end = {CHR ''.'', CHR ''!'', CHR ''?''}"

function re_split :: "string \<Rightarrow> string \<Rightarrow> string list" where
  \<comment> \<open>\<^verbatim>\<open>re.split(r'(?<=[.!?])\s+', text)\<close>: \<open>cur\<close> is the piece read so far, so its last
      character is the one the look-behind sees\<close>
  "re_split cur [] = [cur]"
| "re_split cur (c # cs) =
     (if is_space c \<and> cur \<noteq> [] \<and> last cur \<in> sentence_end
      then cur # re_split [] (dropWhile is_space cs)
      else re_split (cur @ [c]) cs)"
  by pat_completeness auto
termination
proof (relation "measure (\<lambda>(cur, rest). length rest)")
  fix cur :: string and c :: char and cs :: string
  have "length (dropWhile is_space cs) \<le> length cs"
    by (rule length_dropWhile_le)
  then show "((([]::string), dropWhile is_space cs), (cur, c # cs))
      \<in> measure (\<lambda>(cur, rest). length rest)"
    by simp
qed simp_all

definition split_into_sentences :: "string \<Rightarrow> string list" where
  "split_into_sentences text =
     map strip (filter (\<lambda>s. strip s \<noteq> []) (re_split [] text))"

fun py_split :: "string \<Rightarrow> string \<Rightarrow> string list" where
  \<comment> \<open>\<^verbatim>\<open>str.split()\<close> without arguments: the maximal runs of non-whitespace\<close>
  "py_split cur [] = (if cur = [] then [] else [cur])"
| "py_split cur (c # cs) =
     (if is_space c then (if cur = [] then py_split [] cs else cur # py_split [] cs)
      else py_split (cur @ [c]) cs)"

fun join_sp :: "string list \<Rightarrow> string" where
  \<comment> \<open>\<^verbatim>\<open>" ".join(xs)\<close>\<close>
  "join_sp [] = []"
| "join_sp [s] = s"
| "join_sp (s # t # ss) = s @ '' '' @ join_sp (t # ss)"

definition flush :: "string list \<Rightarrow> string list \<Rightarrow> string list" where
  \<comment> \<open>\<^verbatim>\<open>if current_chunk: chunks.append(" ".join(current_chunk))\<close>\<close>
  "flush chunks cur = (if cur \<noteq> [] then chunks @ [join_sp cur] else chunks)"

fun split_loop ::
  "tokenizer \<Rightarrow> int \<Rightarrow> string list \<Rightarrow> string list \<Rightarrow> nat \<Rightarrow> string list \<Rightarrow> string list"
where
  \<comment> \<open>the loop of \<^verbatim>\<open>_split_long_sentence\<close> and the flush after it\<close>
  "split_loop tok max_tokens chunks cur n [] = flush chunks cur"
| "split_loop tok max_tokens chunks cur n (word # ws) =
     (let word_tokens = tok word
      in if int (n + word_tokens) > max_tokens
         then split_loop tok max_tokens (flush chunks cur) [word] word_tokens ws
         else split_loop tok max_tokens chunks (cur @ [word]) (n + word_tokens) ws)"

definition split_long_sentence :: "tokenizer \<Rightarrow> string \<Rightarrow> int \<Rightarrow> string list" where
  "split_long_sentence tok sentence max_tokens =
     split_loop tok max_tokens [] [] 0 (py_split [] sentence)"

fun overlap_loop ::
  "tokenizer \<Rightarrow> int \<Rightarrow> string list \<Rightarrow> nat \<Rightarrow> string list \<Rightarrow> string list \<times> nat"
where
  \<comment> \<open>\<^verbatim>\<open>for s in reversed(current_chunk)\<close>, the last argument being the reversed chunk;
      leaving the recursion is the \<^verbatim>\<open>break\<close>\<close>
  "overlap_loop tok chunk_overlap overlap_chunk overlap_tokens [] =
     (overlap_chunk, overlap_tokens)"
| "overlap_loop tok chunk_overlap overlap_chunk overlap_tokens (s # rest) =
     (let s_tokens = tok s
      in if int (overlap_tokens + s_tokens) \<le> chunk_overlap
         then overlap_loop tok chunk_overlap (s # overlap_chunk) (overlap_tokens + s_tokens) rest
         else (overlap_chunk, overlap_tokens))"

record chunker =
  chunks :: "string list"
  current_chunk :: "string list"
  current_tokens :: nat

definition chunk_step :: "tokenizer \<Rightarrow> int \<Rightarrow> int \<Rightarrow> chunker \<Rightarrow> string \<Rightarrow> chunker" where
  \<comment> \<open>one iteration of \<^verbatim>\<open>for sentence in sentences\<close> in \<^verbatim>\<open>create_chunks\<close>\<close>
  "chunk_step tok chunk_size chunk_overlap st sentence =
     (let sentence_tokens = tok sentence
      in if int sentence_tokens > chunk_size
         then (let st1 = (if current_chunk st \<noteq> []
                          then st\<lparr>chunks := chunks st @ [join_sp (current_chunk st)],
                                  current_chunk := [], current_tokens := 0\<rparr>
                          else st)
               in st1\<lparr>chunks := chunks st1 @ split_long_sentence tok sentence chunk_size\<rparr>)
         else
           (let st1 =
              (if int (current_tokens st + sentence_tokens) > chunk_size
               then (if current_chunk st \<noteq> []
                     then (if chunk_overlap > 0
                           then (let (overlap_chunk, overlap_tokens) =
                                       overlap_loop tok chunk_overlap [] 0 (rev (current_chunk st))
                                 in \<lparr>chunks = chunks st @ [join_sp (current_chunk st)],
                                     current_chunk = overlap_chunk,
                                     current_tokens = overlap_tokens\<rparr>)
                           else \<lparr>chunks = chunks st @ [join_sp (current_chunk st)],
                                 current_chunk = [], current_tokens = 0\<rparr>)
                     else st)
               else st)
            in st1\<lparr>current_chunk := current_chunk st1 @ [sentence],
                    current_tokens := current_tokens st1 + sentence_tokens\<rparr>))"

definition chunker_init :: chunker where
  "chunker_init = \<lparr>chunks = [], current_chunk = [], current_tokens = 0\<rparr>"

definition create_chunks :: "tokenizer \<Rightarrow> string \<Rightarrow> int \<Rightarrow> int \<Rightarrow> string list" where
  "create_chunks tok text chunk_size chunk_overlap =
     (if text = [] then []
      else (let sentences = split_into_sentences (clean_text text);
                st = foldl (chunk_step tok chunk_size chunk_overlap) chunker_init sentences
            in flush (chunks st) (current_chunk st)))"

text \<open>
  A concrete tokenizer for running the chunker on sample texts: one token for each maximal
  run of letters and digits (a leading space belongs to the run) and one for every other
  non-space character. On the sample texts used below it counts what tiktoken's
  \<^verbatim>\<open>cl100k_base\<close> counts.
\<close>

definition is_alnum :: "char \<Rightarrow> bool" where
  "is_alnum c \<longleftrightarrow>
     (let n = (of_char c :: nat)
      in (48 \<le> n \<and> n \<le> 57) \<or> (65 \<le> n \<and> n \<le> 90) \<or> (97 \<le> n \<and> n \<le> 122))"

fun sample_pieces :: "bool \<Rightarrow> string \<Rightarrow> nat" where
  "sample_pieces in_run [] = 0"
| "sample_pieces in_run (c # cs) =
     (if is_alnum c then (if in_run then 0 else 1) + sample_pieces True cs
      else if is_space c then sample_pieces False cs
      else 1 + sample_pieces False cs)"

definition sample_tok :: tokenizer where
  "sample_tok s = sample_pieces False s"



section \<open>Embedding service (app/services/embedding_service.py)\<close>

text \<open>
  Vectors are lists of numbers; the model is over the reals, so rounding and overflow of
  the floating-point arithmetic are left out. The remote embedding backend
  (\<^verbatim>\<open>client.embeddings.create\<close>) is a parameter: it sees the requests issued so far and
  the current request, and either raises (\<open>None\<close>) or returns the embeddings of
  \<^verbatim>\<open>response.data\<close>. Every function that calls it takes the list of requests issued so
  far and returns it extended.
\<close>

type_synonym vector = "real list"

datatype error = ValueError | RuntimeError | IndexError | RetryError | APIError

datatype request = Single string | Batch "string list"

type_synonym remote = "request list \<Rightarrow> request \<Rightarrow> vector list option"

definition embeddings_create ::
  "remote \<Rightarrow> request list \<Rightarrow> request \<Rightarrow> vector list option \<times> request list" where
  "embeddings_create backend calls req = (backend calls req, calls @ [req])"

definition embed_once :: "remote \<Rightarrow> request list \<Rightarrow> string \<Rightarrow> vector option \<times> request list" where
  \<comment> \<open>the body of \<^verbatim>\<open>generate_embedding\<close>: \<^verbatim>\<open>response.data[0].embedding\<close>, any exception re-raised\<close>
  "embed_once backend calls text =
     (case embeddings_create backend calls (Single text) of
        (Some (v # vs), calls') \<Rightarrow> (Some v, calls')
      | (Some [], calls') \<Rightarrow> (None, calls')
      | (None, calls') \<Rightarrow> (None, calls'))"

fun retry_embedding ::
  "nat \<Rightarrow> remote \<Rightarrow> request list \<Rightarrow> string \<Rightarrow> (error + vector) \<times> request list" where
  \<comment> \<open>the tenacity decorator: the first argument is the number of attempts left\<close>
  "retry_embedding 0 backend calls text = (Inl RetryError, calls)"
| "retry_embedding (Suc n) backend calls text =
     (case embed_once backend calls text of
        (Some v, calls') \<Rightarrow> (Inr v, calls')
      | (None, calls') \<Rightarrow> retry_embedding n backend calls' text)"

definition generate_embedding ::
  "remote \<Rightarrow> request list \<Rightarrow> string \<Rightarrow> (error + vector) \<times> request list" where
  \<comment> \<open>\<^verbatim>\<open>stop_after_attempt(3)\<close>\<close>
  "generate_embedding backend calls text = retry_embedding 3 backend calls text"

definition max_batch_size :: nat where
  "max_batch_size = 100"

definition zero_vector :: vector where
  \<comment> \<open>\<^verbatim>\<open>[0.0] * 1536\<close>\<close>
  "zero_vector = replicate 1536 0"

fun embed_individually ::
  "remote \<Rightarrow> request list \<Rightarrow> vector list \<Rightarrow> string list \<Rightarrow> vector list \<times> request list" where
  \<comment> \<open>the fallback \<^verbatim>\<open>for text in batch\<close> of a failed batch\<close>
  "embed_individually backend calls embeddings [] = (embeddings, calls)"
| "embed_individually backend calls embeddings (text # rest) =
     (case generate_embedding backend calls text of
        (Inr embedding, calls') \<Rightarrow>
          embed_individually backend calls' (embeddings @ [embedding]) rest
      | (Inl e2, calls') \<Rightarrow>
          embed_individually backend calls' (embeddings @ [zero_vector]) rest)"

function batch_loop ::
  "remote \<Rightarrow> request list \<Rightarrow> vector list \<Rightarrow> string list \<Rightarrow> vector list \<times> request list" where
  \<comment> \<open>\<^verbatim>\<open>for i in range(0, len(texts), self.max_batch_size)\<close>; the last argument is
      \<^verbatim>\<open>texts[i:]\<close>\<close>
  "batch_loop backend calls embeddings texts =
     (if texts = [] then (embeddings, calls)
      else (let batch = take max_batch_size texts
            in case embeddings_create backend calls (Batch batch) of
                 (Some batch_embeddings, calls') \<Rightarrow>
                   batch_loop backend calls' (embeddings @ batch_embeddings)
                     (drop max_batch_size texts)
               | (None, calls') \<Rightarrow>
                   (case embed_individually backend calls' embeddings batch of
                      (embeddings', calls'') \<Rightarrow>
                        batch_loop backend calls'' embeddings' (drop max_batch_size texts))))"
  by pat_completeness auto
termination
  by (relation "measure (\<lambda>(backend, calls, embeddings, texts). length texts)")
     (auto simp: max_batch_size_def)

declare batch_loop.simps [simp del]

definition generate_embeddings_batch ::
  "remote \<Rightarrow> request list \<Rightarrow> string list \<Rightarrow> vector list \<times> request list" where
  "generate_embeddings_batch backend calls texts = batch_loop backend calls [] texts"

definition generate_query_embedding ::
  "remote \<Rightarrow> request list \<Rightarrow> string \<Rightarrow> (error + vector) \<times> request list" where
  "generate_query_embedding backend calls query =
     (let query = strip query
      in if query = [] then (Inl ValueError, calls)
         else generate_embedding backend calls query)"

datatype npfloat = Finite real | NonFinite

definition np_dot :: "vector \<Rightarrow> vector \<Rightarrow> error + real" where
  \<comment> \<open>\<^verbatim>\<open>np.dot\<close> of two one-dimensional arrays raises ValueError unless the shapes agree\<close>
  "np_dot a b =
     (if length a \<noteq> length b then Inl ValueError else Inr (sum_list (map2 (*) a b)))"

definition np_norm :: "vector \<Rightarrow> real" where
  "np_norm a = sqrt (sum_list (map (\<lambda>x. x * x) a))"

definition np_divide :: "real \<Rightarrow> real \<Rightarrow> npfloat" where
  \<comment> \<open>numpy does not raise on a zero divisor: the quotient is then infinite or not a number\<close>
  "np_divide x y = (if y = 0 then NonFinite else Finite (x / y))"

definition cosine_similarity :: "vector \<Rightarrow> vector \<Rightarrow> error + npfloat" where
  "cosine_similarity vec1 vec2 =
     (case np_dot vec1 vec2 of
        Inl e \<Rightarrow> Inl e
      | Inr dot_product \<Rightarrow>
          (let norm1 = np_norm vec1; norm2 = np_norm vec2
           in if norm1 = 0 \<or> norm2 = 0 then Inr (Finite 0)
              else Inr (np_divide dot_product (norm1 * norm2))))"

section \<open>FAISS vector database (app/services/faiss_db.py)\<close>

text \<open>
  The FAISS index is the list of its rows, in insertion order (\<^verbatim>\<open>index.ntotal\<close> is its
  length); the rows have no ids of their own. \<^verbatim>\<open>self.documents\<close> is a Python dict, kept
  as an association list in insertion order: assigning to a present key replaces the value
  in place, assigning to a new key appends. Metadata values are strings or integers.
  Writing the two files (\<^verbatim>\<open>_save_index\<close>) does not change the state in memory and
  swallows its own failures, so it is left out.
\<close>

datatype mval = MStr string | MInt int

type_synonym metadata = "(string \<times> mval) list"

record stored_doc =
  doc_text :: string
  doc_metadata :: metadata

record document =
  id_key :: "string option"
  text_key :: "string option"
  embedding_key :: "vector option"
  metadata_key :: "metadata option"

record entry =
  entry_id :: string
  entry_text :: string
  entry_metadata :: metadata

record hit = entry +
  score :: real

record faiss_db =
  index :: "vector list"
  documents :: "(string \<times> stored_doc) list"
  dimension :: nat

datatype warning =
    Embedding_dimension_mismatch nat nat
  | Cannot_rebuild_without_stored_embeddings

fun str_nat :: "nat \<Rightarrow> string" where
  \<comment> \<open>\<^verbatim>\<open>str(n)\<close> of a non-negative integer\<close>
  "str_nat n =
     (if n < 10 then [char_of (48 + n)]
      else str_nat (n div 10) @ [char_of (48 + n mod 10)])"

declare str_nat.simps [simp del]

definition py_str :: "mval \<Rightarrow> string" where
  "py_str v =
     (case v of
        MStr s \<Rightarrow> s
      | MInt i \<Rightarrow> (if i < 0 then CHR ''-'' # str_nat (nat (- i)) else str_nat (nat i)))"

definition new_faiss :: faiss_db where
  \<comment> \<open>\<^verbatim>\<open>__init__\<close> followed by \<^verbatim>\<open>faiss.IndexFlatIP(self.dimension)\<close>\<close>
  "new_faiss = \<lparr>index = [], documents = [], dimension = 1536\<rparr>"

definition faiss_initialize :: "(vector list \<times> (string \<times> stored_doc) list) option \<Rightarrow> faiss_db" where
  \<comment> \<open>the argument is what the two files hold; \<open>None\<close> when one is missing or unreadable\<close>
  "faiss_initialize persisted =
     (case persisted of
        Some (rows, docs) \<Rightarrow> \<lparr>index = rows, documents = docs, dimension = 1536\<rparr>
      | None \<Rightarrow> new_faiss)"

definition pad_or_truncate :: "nat \<Rightarrow> vector \<Rightarrow> vector" where
  "pad_or_truncate dimn embedding =
     (if length embedding \<noteq> dimn
      then (if length embedding < dimn
            then embedding @ replicate (dimn - length embedding) 0
            else take dimn embedding)
      else embedding)"

definition normalize_L2 :: "vector \<Rightarrow> vector" where
  \<comment> \<open>\<^verbatim>\<open>faiss.normalize_L2\<close> on one row: a row of norm zero is left as it is\<close>
  "normalize_L2 v = (let n = np_norm v in if n = 0 then v else map (\<lambda>x. x / n) v)"

definition doc_id_of :: "(string \<times> stored_doc) list \<Rightarrow> document \<Rightarrow> string" where
  \<comment> \<open>\<^verbatim>\<open>doc.get('id', str(len(self.documents)))\<close>\<close>
  "doc_id_of docs doc = (case id_key doc of Some i \<Rightarrow> i | None \<Rightarrow> str_nat (length docs))"

definition stored_of :: "document \<Rightarrow> stored_doc" where
  \<comment> \<open>\<^verbatim>\<open>{'text': doc.get('text', ''), 'metadata': doc.get('metadata', {})}\<close>\<close>
  "stored_of doc =
     \<lparr>doc_text = (case text_key doc of Some t \<Rightarrow> t | None \<Rightarrow> []),
      doc_metadata = (case metadata_key doc of Some m \<Rightarrow> m | None \<Rightarrow> [])\<rparr>"

definition embedding_of :: "document \<Rightarrow> vector" where
  \<comment> \<open>\<^verbatim>\<open>doc.get('embedding', [])\<close>\<close>
  "embedding_of doc = (case embedding_key doc of Some e \<Rightarrow> e | None \<Rightarrow> [])"

fun add_loop ::
  "nat \<Rightarrow> (string \<times> stored_doc) list \<times> vector list \<times> warning list \<Rightarrow> document list
     \<Rightarrow> (string \<times> stored_doc) list \<times> vector list \<times> warning list" where
  \<comment> \<open>\<^verbatim>\<open>for doc in documents\<close> of \<^verbatim>\<open>add_documents\<close>: the metadata store, the local list
      \<^verbatim>\<open>embeddings\<close> and the warnings logged\<close>
  "add_loop dimn st [] = st"
| "add_loop dimn (docs, embeddings, warnings) (doc # rest) =
     (let doc_id = doc_id_of docs doc;
          docs' = AList.update doc_id (stored_of doc) docs;
          embedding = embedding_of doc;
          warnings' = (if length embedding \<noteq> dimn
                       then warnings @ [Embedding_dimension_mismatch dimn (length embedding)]
                       else warnings)
      in add_loop dimn (docs', embeddings @ [pad_or_truncate dimn embedding], warnings') rest)"

definition add_documents :: "faiss_db \<Rightarrow> document list \<Rightarrow> faiss_db \<times> warning list" where
  "add_documents db docs =
     (if docs = [] then (db, [])
      else (case add_loop (dimension db) (documents db, [], []) docs of
              (docs', embeddings, warnings) \<Rightarrow>
                (db\<lparr>documents := docs', index := index db @ map normalize_L2 embeddings\<rparr>,
                 warnings)))"

type_synonym index_search = "vector list \<Rightarrow> vector \<Rightarrow> int \<Rightarrow> (real \<times> int) list option"

fun format_results :: "(string \<times> stored_doc) list \<Rightarrow> (real \<times> int) list \<Rightarrow> hit list option" where
  \<comment> \<open>the loop over \<^verbatim>\<open>zip(scores[0], indices[0])\<close>; \<open>None\<close> is a KeyError\<close>
  "format_results docs [] = Some []"
| "format_results docs ((s, idx) # found) =
     (if idx \<ge> 0 \<and> idx < int (length docs)
      then (let doc_id = map fst docs ! nat idx
            in case map_of docs doc_id of
                 None \<Rightarrow> None
               | Some doc \<Rightarrow>
                   (case format_results docs found of
                      None \<Rightarrow> None
                    | Some hits \<Rightarrow>
                        Some (\<lparr>entry_id = doc_id, entry_text = doc_text doc,
                                entry_metadata = doc_metadata doc, score = s\<rparr> # hits)))
      else format_results docs found)"

definition search :: "index_search \<Rightarrow> faiss_db \<Rightarrow> vector \<Rightarrow> int \<Rightarrow> hit list" where
  \<comment> \<open>\<^verbatim>\<open>self.index.search\<close> belongs to the FAISS library and is the parameter \<open>isearch\<close>
      (\<open>None\<close> when it raises); every exception ends in \<^verbatim>\<open>return []\<close>\<close>
  "search isearch db query_embedding top_k =
     (if index db = [] then []
      else (let q = normalize_L2 (pad_or_truncate (dimension db) query_embedding)
            in case isearch (index db) q (min top_k (int (length (index db)))) of
                 None \<Rightarrow> []
               | Some found \<Rightarrow>
                   (case format_results (documents db) found of
                      None \<Rightarrow> []
                    | Some hits \<Rightarrow> hits)))"

definition rebuild_index :: "faiss_db \<Rightarrow> faiss_db \<times> warning list" where
  \<comment> \<open>\<^verbatim>\<open>_rebuild_index\<close>: a new empty index; with documents left it only logs the warning\<close>
  "rebuild_index db =
     (let db' = db\<lparr>index := []\<rparr>
      in if documents db' = [] then (db', [])
         else (db', [Cannot_rebuild_without_stored_embeddings]))"

definition delete_documents :: "faiss_db \<Rightarrow> string list \<Rightarrow> faiss_db \<times> warning list" where
  "delete_documents db document_ids =
     (if document_ids = [] then (db, [])
      else rebuild_index
             (db\<lparr>documents := foldl (\<lambda>docs doc_id. AList.delete doc_id docs)
                                 (documents db) document_ids\<rparr>))"

definition update_document :: "faiss_db \<Rightarrow> string \<Rightarrow> document \<Rightarrow> faiss_db \<times> warning list" where
  "update_document db document_id doc =
     (let db1 = (if document_id \<in> set (map fst (documents db))
                 then db\<lparr>documents := AList.update document_id (stored_of doc) (documents db)\<rparr>
                 else db)
      in add_documents db1 [doc\<lparr>id_key := Some document_id\<rparr>])"

definition get_document :: "faiss_db \<Rightarrow> string \<Rightarrow> entry option" where
  "get_document db document_id =
     (case map_of (documents db) document_id of
        Some doc \<Rightarrow> Some \<lparr>entry_id = document_id, entry_text = doc_text doc,
                          entry_metadata = doc_metadata doc\<rparr>
      | None \<Rightarrow> None)"

definition count_documents :: "faiss_db \<Rightarrow> nat" where
  "count_documents db = length (documents db)"


fun assigned_ids :: "(string \<times> stored_doc) list \<Rightarrow> document list \<Rightarrow> string list" where
  \<comment> \<open>the \<^verbatim>\<open>doc_id\<close> of each iteration of the loop of \<^verbatim>\<open>add_documents\<close>, in order: the
      i-th row appended by the call is the embedding of the entry with the i-th of these ids\<close>
  "assigned_ids docs [] = []"
| "assigned_ids docs (doc # rest) =
     doc_id_of docs doc
       # assigned_ids (AList.update (doc_id_of docs doc) (stored_of doc) docs) rest"

section \<open>Vector database service (app/services/vector_db.py)\<close>

record settings =
  vector_db_type :: string
  openai_model_chat :: string
  max_tokens :: int

type_synonym persisted = "(vector list \<times> (string \<times> stored_doc) list) option"

definition lower_char :: "char \<Rightarrow> char" where
  "lower_char c =
     (let n = (of_char c :: nat)
      in if (65 \<le> n \<and> n \<le> 90) \<or> (192 \<le> n \<and> n \<le> 222 \<and> n \<noteq> 215)
         then char_of (n + 32) else c)"

definition vector_service_initialize :: "settings \<Rightarrow> persisted \<Rightarrow> error + faiss_db" where
  "vector_service_initialize cfg stored =
     (let db_type = map lower_char (vector_db_type cfg)
      in if db_type = ''chroma'' then Inr (faiss_initialize stored) else Inl ValueError)"

definition ensure_initialized :: "settings \<Rightarrow> persisted \<Rightarrow> faiss_db option \<Rightarrow> error + faiss_db" where
  \<comment> \<open>\<^verbatim>\<open>if not self.vector_service.db: await self.vector_service.initialize()\<close>\<close>
  "ensure_initialized cfg stored vdb =
     (case vdb of Some db \<Rightarrow> Inr db | None \<Rightarrow> vector_service_initialize cfg stored)"

section \<open>Indexing service (app/services/indexing_service.py)\<close>

text \<open>
  A chunk is a dict with the key \<^verbatim>\<open>text\<close> and, optionally, \<^verbatim>\<open>metadata\<close>. The md5 digest
  of \<^verbatim>\<open>hashlib\<close> is the parameter \<open>md5\<close>. The state of the service is its vector database
  (\<open>None\<close> before the first initialization) and the requests its embedding service has
  issued.
\<close>

record chunk =
  chunk_text :: string
  chunk_metadata :: "metadata option"

record stats =
  total_chunks :: nat
  indexed :: nat
  skipped :: nat
  failed :: nat

record services =
  vector_db :: "faiss_db option"
  issued :: "request list"

definition generate_chunk_id :: "string \<Rightarrow> chunk \<Rightarrow> string" where
  "generate_chunk_id source_id c =
     (let chunk_index =
            (case map_of (case chunk_metadata c of Some m \<Rightarrow> m | None \<Rightarrow> []) ''chunk_index'' of
               Some v \<Rightarrow> v | None \<Rightarrow> MInt 0)
      in source_id @ ''_'' @ py_str chunk_index)"

definition generate_content_hash :: "(string \<Rightarrow> string) \<Rightarrow> string \<Rightarrow> string" where
  "generate_content_hash md5 t = md5 t"

definition has_content_changed :: "(string \<Rightarrow> string) \<Rightarrow> entry \<Rightarrow> chunk \<Rightarrow> bool" where
  "has_content_changed md5 existing new_chunk =
     (let existing_hash =
            (case map_of (entry_metadata existing) ''content_hash'' of
               Some v \<Rightarrow> v | None \<Rightarrow> MStr []);
          new_hash = generate_content_hash md5 (chunk_text new_chunk)
      in existing_hash \<noteq> MStr new_hash)"

fun select_loop ::
  "(string \<Rightarrow> string) \<Rightarrow> faiss_db \<Rightarrow> string \<Rightarrow> bool
     \<Rightarrow> string list \<times> (string \<times> chunk) list \<times> nat \<Rightarrow> chunk list
     \<Rightarrow> string list \<times> (string \<times> chunk) list \<times> nat" where
  \<comment> \<open>\<^verbatim>\<open>for chunk in chunks\<close> of \<^verbatim>\<open>index_chunks\<close>: \<^verbatim>\<open>texts_to_embed\<close>,
      \<^verbatim>\<open>chunks_to_index\<close> (each chunk with its id) and \<^verbatim>\<open>stats["skipped"]\<close>. The
      \<^verbatim>\<open>else\<close> of the source belongs to \<^verbatim>\<open>if not force_reindex\<close>, so a chunk with no
      existing entry reaches neither \<^verbatim>\<open>append\<close>.\<close>
  "select_loop md5 db source_id force_reindex acc [] = acc"
| "select_loop md5 db source_id force_reindex (texts_to_embed, chunks_to_index, n_skipped) (c # rest) =
     (let chunk_id = generate_chunk_id source_id c
      in if \<not> force_reindex
         then (case get_document db chunk_id of
                 Some existing \<Rightarrow>
                   (if has_content_changed md5 existing c
                    then select_loop md5 db source_id force_reindex
                           (texts_to_embed @ [chunk_text c], chunks_to_index @ [(chunk_id, c)],
                            n_skipped) rest
                    else select_loop md5 db source_id force_reindex
                           (texts_to_embed, chunks_to_index, n_skipped + 1) rest)
               | None \<Rightarrow>
                   select_loop md5 db source_id force_reindex
                     (texts_to_embed, chunks_to_index, n_skipped) rest)
         else select_loop md5 db source_id force_reindex
                (texts_to_embed @ [chunk_text c], chunks_to_index @ [(chunk_id, c)],
                 n_skipped) rest)"

fun build_documents ::
  "(string \<Rightarrow> string) \<Rightarrow> string \<Rightarrow> (string \<times> chunk) list \<Rightarrow> vector list
     \<Rightarrow> error + document list" where
  \<comment> \<open>\<^verbatim>\<open>for i, chunk in enumerate(chunks_to_index)\<close>; \<^verbatim>\<open>embeddings[i]\<close> raises IndexError
      when the embeddings are fewer than the chunks\<close>
  "build_documents md5 source_id [] embeddings = Inr []"
| "build_documents md5 source_id ((chunk_id, c) # rest) [] = Inl IndexError"
| "build_documents md5 source_id ((chunk_id, c) # rest) (e # es) =
     (case build_documents md5 source_id rest es of
        Inl err \<Rightarrow> Inl err
      | Inr docs \<Rightarrow>
          Inr (\<lparr>id_key = Some chunk_id,
                text_key = Some (chunk_text c),
                embedding_key = Some e,
                metadata_key =
                  Some (AList.update ''content_hash''
                          (MStr (generate_content_hash md5 (chunk_text c)))
                          (AList.update ''source_id'' (MStr source_id)
                             (case chunk_metadata c of Some m \<Rightarrow> m | None \<Rightarrow> [])))\<rparr>
               # docs))"

definition index_chunks ::
  "settings \<Rightarrow> persisted \<Rightarrow> (string \<Rightarrow> string) \<Rightarrow> remote \<Rightarrow> services
     \<Rightarrow> chunk list \<Rightarrow> string \<Rightarrow> bool \<Rightarrow> (error + stats) \<times> services" where
  "index_chunks cfg stored md5 backend st chunk_list source_id force_reindex =
     (case ensure_initialized cfg stored (vector_db st) of
        Inl e \<Rightarrow> (Inl e, st)
      | Inr db \<Rightarrow>
          (let st1 = st\<lparr>vector_db := Some db\<rparr>
           in case select_loop md5 db source_id force_reindex ([], [], 0) chunk_list of
                (texts_to_embed, chunks_to_index, n_skipped) \<Rightarrow>
                  (let stats0 = \<lparr>total_chunks = length chunk_list, indexed = 0,
                                 skipped = n_skipped, failed = 0\<rparr>
                   in if texts_to_embed \<noteq> []
                      then (case generate_embeddings_batch backend (issued st1) texts_to_embed of
                              (embeddings, issued') \<Rightarrow>
                                (case build_documents md5 source_id chunks_to_index embeddings of
                                   Inl e \<Rightarrow> (Inl e, st1\<lparr>issued := issued'\<rparr>)
                                 | Inr docs \<Rightarrow>
                                     (Inr (stats0\<lparr>indexed := length docs\<rparr>),
                                      \<lparr>vector_db = Some (fst (add_documents db docs)),
                                       issued = issued'\<rparr>)))
                      else (Inr stats0, st1))))"

section \<open>Retrieval and answering (app/services/rag_service.py)\<close>

text \<open>
  The fixed reply of \<^verbatim>\<open>query\<close> when nothing is found is a literal of the source, kept
  here as the constructor \<open>No_relevant_information\<close>. Assembling the prompt and calling
  the chat backend (\<^verbatim>\<open>_prepare_context\<close>, \<^verbatim>\<open>_generate_answer\<close>) is the parameter
  \<open>generate\<close> (\<open>None\<close> when the backend raises); the clock is the parameter \<open>now\<close>.
\<close>

datatype answer_text = No_relevant_information | Generated string

record source =
  page_id :: mval
  page_title :: mval
  source_text :: string
  source_score :: real
  url :: mval
  source_chunk_index :: mval
  source_total_chunks :: mval

record rag_result =
  answer :: answer_text
  sources :: "source list"
  model_used :: string
  asked :: string
  timestamp :: "string option"

definition format_sources :: "hit list \<Rightarrow> source list" where
  "format_sources found =
     map (\<lambda>doc.
            (let md = entry_metadata doc;
                 get = (\<lambda>k dflt. case map_of md k of Some v \<Rightarrow> v | None \<Rightarrow> dflt)
             in \<lparr>page_id = get ''page_id'' (MStr (entry_id doc)),
                 page_title = get ''page_title'' (MStr ''Untitled''),
                 source_text = take 500 (entry_text doc),
                 source_score = score doc,
                 url = get ''url'' (MStr []),
                 source_chunk_index = get ''chunk_index'' (MInt 0),
                 source_total_chunks = get ''total_chunks'' (MInt 1)\<rparr>))
         found"

definition query ::
  "settings \<Rightarrow> persisted \<Rightarrow> remote \<Rightarrow> index_search
     \<Rightarrow> (string \<Rightarrow> hit list \<Rightarrow> real \<Rightarrow> int \<Rightarrow> string option) \<Rightarrow> string
     \<Rightarrow> services \<Rightarrow> string \<Rightarrow> int \<Rightarrow> real \<Rightarrow> int option
     \<Rightarrow> (error + rag_result) \<times> services" where
  "query cfg stored backend isearch generate now st q top_k temperature max_tokens_arg =
     (case ensure_initialized cfg stored (vector_db st) of
        Inl e \<Rightarrow> (Inl e, st)
      | Inr db \<Rightarrow>
          (let st1 = st\<lparr>vector_db := Some db\<rparr>;
               limit = (case max_tokens_arg of None \<Rightarrow> max_tokens cfg | Some m \<Rightarrow> m)
           in case generate_query_embedding backend (issued st1) q of
                (Inl e, issued') \<Rightarrow> (Inl e, st1\<lparr>issued := issued'\<rparr>)
              | (Inr query_embedding, issued') \<Rightarrow>
                  (let st2 = st1\<lparr>issued := issued'\<rparr>;
                       relevant_docs = search isearch db query_embedding top_k
                   in if relevant_docs = []
                      then (Inr \<lparr>answer = No_relevant_information, sources = [],
                                 model_used = openai_model_chat cfg, asked = q,
                                 timestamp = None\<rparr>, st2)
                      else (case generate q relevant_docs temperature limit of
                              None \<Rightarrow> (Inl APIError, st2)
                            | Some text_out \<Rightarrow>
                                (Inr \<lparr>answer = Generated text_out,
                                      sources = format_sources relevant_docs,
                                      model_used = openai_model_chat cfg, asked = q,
                                      timestamp = Some now\<rparr>, st2)))))"

section \<open>Auxiliary notions and sample data for the properties\<close>

text \<open>
  The keys of a dict after assigning to the keys of a list in turn: a present key keeps
  its place, a new key is appended.
\<close>

fun keys_after :: "string list \<Rightarrow> string list \<Rightarrow> string list" where
  "keys_after ks [] = ks"
| "keys_after ks (k # rest) = keys_after (if k \<in> set ks then ks else ks @ [k]) rest"

text \<open>Two sample entries, both with embeddings shorter than the dimension of the index.\<close>

definition doc_a :: document where
  "doc_a = \<lparr>id_key = Some ''a'', text_key = Some ''first'', embedding_key = Some [3, 4],
            metadata_key = None\<rparr>"

definition doc_b :: document where
  "doc_b = \<lparr>id_key = Some ''b'', text_key = Some ''second'', embedding_key = Some [1],
            metadata_key = None\<rparr>"

text \<open>
  What it means for a vector to be the backend's embedding of a text: the backend returned
  it for a single-item request for that text, or at the position of that text in a batch
  request. \<open>embedded_or_zero\<close> adds the fallback: the zero vector, for a text whose
  single-item embedding failed after its retries.
\<close>

definition answered :: "remote \<Rightarrow> string \<Rightarrow> vector \<Rightarrow> bool" where
  "answered backend text v \<longleftrightarrow>
     (\<exists>calls vs. backend calls (Single text) = Some (v # vs))
   \<or> (\<exists>calls batch vs k. backend calls (Batch batch) = Some vs
          \<and> k < length batch \<and> batch ! k = text \<and> vs ! k = v)"

definition embedded_or_zero :: "remote \<Rightarrow> string \<Rightarrow> vector \<Rightarrow> bool" where
  "embedded_or_zero backend text v \<longleftrightarrow>
     answered backend text v
   \<or> (v = zero_vector \<and> (\<exists>calls. fst (generate_embedding backend calls text) = Inl RetryError))"

text \<open>
  A sample backend for running the service: the first request fails when it is a batch
  request, later batch requests succeed, and single-item requests succeed for every text
  but \<open>bad\<close>. The embedding of a text is the one-element vector holding its length.
\<close>

definition sample_backend :: remote where
  "sample_backend calls req =
     (case req of
        Batch batch \<Rightarrow> (if calls = [] then None else Some (map (\<lambda>t. [real (length t)]) batch))
      | Single t \<Rightarrow> (if t = ''bad'' then None else Some [[real (length t)]]))"

text \<open>
  Sample settings (the defaults of app/core/config.py), a backend on which every request
  fails, an index search and a generation backend that always raise.
\<close>

definition sample_settings :: settings where
  "sample_settings = \<lparr>vector_db_type = ''chroma'', openai_model_chat = ''gpt-4-turbo-preview'',
                       max_tokens = 1500\<rparr>"

definition failing_backend :: remote where
  "failing_backend issued_before req = None"

definition no_search :: index_search where
  "no_search rows q k = None"

definition no_generation :: "string \<Rightarrow> hit list \<Rightarrow> real \<Rightarrow> int \<Rightarrow> string option" where
  "no_generation q found temperature limit = None"

section \<open>Properties of the text chunker\<close>

text \<open>
  Claim C3 (token bound). The claim: every chunk emitted by \<open>create_chunks\<close> outside the
  long-sentence path has at most \<open>chunk_size\<close> tokens, for every overlap. The code seeds
  the next chunk with the overlap suffix and then appends the sentence that overflowed
  without comparing the sum with \<open>chunk_size\<close> again. On the text \<open>Go. Go now.\<close> with
  \<open>chunk_size = 4\<close> and \<open>chunk_overlap = 2\<close> the two sentences have 2 and 3 tokens, so
  neither takes the long-sentence path, and the second chunk emitted has 5 tokens.
\<close>

theorem create_chunks_exceeds_chunk_size:
  "create_chunks sample_tok ''Go. Go now.'' 4 2 = [''Go.'', ''Go. Go now.'']
   \<and> map sample_tok (split_into_sentences (clean_text ''Go. Go now.'')) = [2, 3]
   \<and> map sample_tok (create_chunks sample_tok ''Go. Go now.'' 4 2) = [2, 5]"
  by code_simp

subsection \<open>Invariants of the two loops\<close>





lemma overlap_loop_char:
  "\<exists>k\<le>length rest.
     overlap_loop tok ovl oc ot rest
       = (rev (take k rest) @ oc, ot + sum_list (map tok (take k rest)))
     \<and> (k < length rest \<longrightarrow> int (ot + sum_list (map tok (take k rest)) + tok (rest ! k)) > ovl)
     \<and> (int ot \<le> ovl \<longrightarrow> int (ot + sum_list (map tok (take k rest))) \<le> ovl)"
proof (induction rest arbitrary: oc ot)
  case Nil
  then show ?case by simp
next
  case (Cons s rest)
  show ?case
  proof (cases "int (ot + tok s) \<le> ovl")
    case True
    from Cons.IH[of "s # oc" "ot + tok s"] obtain k where k: "k \<le> length rest"
      "overlap_loop tok ovl (s # oc) (ot + tok s) rest
         = (rev (take k rest) @ s # oc, ot + tok s + sum_list (map tok (take k rest)))"
      "k < length rest \<longrightarrow> int (ot + tok s + sum_list (map tok (take k rest)) + tok (rest ! k)) > ovl"
      "int (ot + tok s) \<le> ovl \<longrightarrow> int (ot + tok s + sum_list (map tok (take k rest))) \<le> ovl"
      by blast
    show ?thesis
      apply (rule exI[of _ "Suc k"])
      using True k by (simp add: add.assoc)
  next
    case False
    show ?thesis
      apply (rule exI[of _ 0])
      using False by simp
  qed
qed

lemma overlap_loop_sum:
  "snd (overlap_loop tok ovl oc (sum_list (map tok oc)) rest)
     = sum_list (map tok (fst (overlap_loop tok ovl oc (sum_list (map tok oc)) rest)))"
proof (induction rest arbitrary: oc)
  case Nil
  then show ?case by simp
next
  case (Cons s rest)
  have "sum_list (map tok oc) + tok s = sum_list (map tok (s # oc))" by simp
  then show ?case using Cons.IH[of "s # oc"] by (simp add: Let_def add.commute)
qed

lemma chunk_step_tokens:
  "current_tokens st = sum_list (map tok (current_chunk st)) \<Longrightarrow>
   current_tokens (chunk_step tok sz ovl st s) = sum_list (map tok (current_chunk (chunk_step tok sz ovl st s)))"
  using overlap_loop_sum[of tok ovl "[]" "rev (current_chunk st)"]
  by (auto simp: chunk_step_def Let_def split: prod.splits)

lemma reachable_tokens:
  "current_tokens (foldl (chunk_step tok sz ovl) chunker_init pre)
     = sum_list (map tok (current_chunk (foldl (chunk_step tok sz ovl) chunker_init pre)))"
  by (induction pre rule: rev_induct) (simp_all add: chunker_init_def chunk_step_tokens)




text \<open>
  Claim C5 (overlap suffix). When a sentence that fits \<open>chunk_size\<close> on its own overflows the
  current chunk, in any state the loop of \<open>create_chunks\<close> can reach: the current chunk is
  emitted, and the next chunk is a suffix \<open>ov\<close> of its sentences followed by the new
  sentence. For a positive \<open>chunk_overlap\<close> the suffix consists of whole sentences with
  cumulative token count at most \<open>chunk_overlap\<close>, and it stops either at the start of the
  chunk or at the first sentence (walking backward) that would exceed \<open>chunk_overlap\<close>.
  For \<open>chunk_overlap = 0\<close> (or below) the suffix is empty.
\<close>

theorem overflow_seeds_overlap:
  assumes "st = foldl (chunk_step tok chunk_size chunk_overlap) chunker_init pre"
    and "\<not> int (tok sentence) > chunk_size"
    and "int (current_tokens st + tok sentence) > chunk_size"
  shows "\<exists>before ov.
      current_chunk st = before @ ov
    \<and> chunk_step tok chunk_size chunk_overlap st sentence
        = \<lparr>chunks = chunks st @ [join_sp (current_chunk st)],
           current_chunk = ov @ [sentence],
           current_tokens = sum_list (map tok ov) + tok sentence\<rparr>
    \<and> (chunk_overlap > 0 \<longrightarrow>
          int (sum_list (map tok ov)) \<le> chunk_overlap
        \<and> (before = [] \<or> int (sum_list (map tok ov) + tok (last before)) > chunk_overlap))
    \<and> (chunk_overlap \<le> 0 \<longrightarrow> ov = [])"
proof -
  let ?cur = "current_chunk st"
  have tokens: "current_tokens st = sum_list (map tok ?cur)"
    using assms(1) reachable_tokens by simp
  have ne: "?cur \<noteq> []"
    using assms(2,3) tokens by auto
  show ?thesis
  proof (cases "chunk_overlap > 0")
    case False
    have "chunk_step tok chunk_size chunk_overlap st sentence
        = \<lparr>chunks = chunks st @ [join_sp ?cur], current_chunk = [] @ [sentence],
           current_tokens = sum_list (map tok []) + tok sentence\<rparr>"
      using assms(2,3) ne False by (simp add: chunk_step_def Let_def)
    then show ?thesis
      apply -
      apply (rule exI[of _ ?cur])
      apply (rule exI[of _ "[]"])
      using False by simp
  next
    case True
    obtain k where k: "k \<le> length (rev ?cur)"
      "overlap_loop tok chunk_overlap [] 0 (rev ?cur)
         = (rev (take k (rev ?cur)) @ [], 0 + sum_list (map tok (take k (rev ?cur))))"
      "k < length (rev ?cur) \<longrightarrow>
         int (0 + sum_list (map tok (take k (rev ?cur))) + tok (rev ?cur ! k)) > chunk_overlap"
      "int 0 \<le> chunk_overlap \<longrightarrow> int (0 + sum_list (map tok (take k (rev ?cur)))) \<le> chunk_overlap"
      using overlap_loop_char[of "rev ?cur" tok chunk_overlap "[]" 0] by blast
    let ?ov = "drop (length ?cur - k) ?cur"
    let ?before = "take (length ?cur - k) ?cur"
    have ov: "rev (take k (rev ?cur)) = ?ov"
      by (simp add: take_rev)
    have sum: "sum_list (map tok (take k (rev ?cur))) = sum_list (map tok ?ov)"
    proof -
      have "sum_list (map tok (rev (take k (rev ?cur)))) = sum_list (map tok ?ov)"
        by (simp only: ov)
      then show ?thesis by (simp add: rev_map[symmetric])
    qed
    have loop: "overlap_loop tok chunk_overlap [] 0 (rev ?cur) = (?ov, sum_list (map tok ?ov))"
      using k(2) ov sum by simp
    have step: "chunk_step tok chunk_size chunk_overlap st sentence
        = \<lparr>chunks = chunks st @ [join_sp ?cur], current_chunk = ?ov @ [sentence],
           current_tokens = sum_list (map tok ?ov) + tok sentence\<rparr>"
      using assms(2,3) ne True loop by (simp add: chunk_step_def Let_def)
    have within: "int (sum_list (map tok ?ov)) \<le> chunk_overlap"
      using k(4) True sum by simp
    have stop: "?before = [] \<or> int (sum_list (map tok ?ov) + tok (last ?before)) > chunk_overlap"
    proof (cases "k < length ?cur")
      case False
      then show ?thesis by simp
    next
      case lt: True
      have bne: "?before \<noteq> []"
        using lt ne by simp
      have "last ?before = ?before ! (length ?before - 1)"
        using bne by (rule last_conv_nth)
      also have "\<dots> = ?cur ! (length ?cur - k - 1)"
        using lt by simp
      finally have "last ?before = ?cur ! (length ?cur - k - 1)" .
      moreover have "rev ?cur ! k = ?cur ! (length ?cur - k - 1)"
        using lt by (simp add: rev_nth)
      ultimately show ?thesis using k(3) lt sum by simp
    qed
    have cat: "?cur = ?before @ ?ov" by simp
    show ?thesis
      apply (rule exI[of _ ?before])
      apply (rule exI[of _ ?ov])
      apply (intro conjI impI)
      subgoal by (rule cat)
      subgoal by (rule step)
      subgoal by (rule within)
      subgoal by (rule stop)
      subgoal using True by simp
      done
  qed
qed

theorem overflow_seeds_overlap_witness:
  "\<not> int (sample_tok ''Go now.'') > 4
   \<and> int (current_tokens (foldl (chunk_step sample_tok 4 2) chunker_init [''Go.''])
          + sample_tok ''Go now.'') > 4
   \<and> (\<exists>before ov.
        current_chunk (foldl (chunk_step sample_tok 4 2) chunker_init [''Go.'']) = before @ ov
      \<and> chunk_step sample_tok 4 2 (foldl (chunk_step sample_tok 4 2) chunker_init [''Go.''])
            ''Go now.''
          = \<lparr>chunks = chunks (foldl (chunk_step sample_tok 4 2) chunker_init [''Go.''])
                 @ [join_sp (current_chunk (foldl (chunk_step sample_tok 4 2) chunker_init [''Go.'']))],
             current_chunk = ov @ [''Go now.''],
             current_tokens = sum_list (map sample_tok ov) + sample_tok ''Go now.''\<rparr>
      \<and> ((2::int) > 0 \<longrightarrow>
            int (sum_list (map sample_tok ov)) \<le> 2
          \<and> (before = [] \<or> int (sum_list (map sample_tok ov) + sample_tok (last before)) > 2))
      \<and> ((2::int) \<le> 0 \<longrightarrow> ov = []))"
proof -
  have h1: "\<not> int (sample_tok ''Go now.'') > 4"
    by code_simp
  have h2: "int (current_tokens (foldl (chunk_step sample_tok 4 2) chunker_init [''Go.''])
          + sample_tok ''Go now.'') > 4"
    by code_simp
  show ?thesis
    using overflow_seeds_overlap[of "foldl (chunk_step sample_tok 4 2) chunker_init [''Go.'']"
        sample_tok 4 2 "[''Go.'']" "''Go now.''", OF refl h1 h2]
    by (intro conjI h1 h2)
qed

section \<open>Properties of the embedding service\<close>

lemma retry_embedding_result:
  "retry_embedding n backend calls text = (r, calls') \<Longrightarrow>
   (case r of Inr v \<Rightarrow> answered backend text v | Inl e \<Rightarrow> e = RetryError)"
proof (induction n arbitrary: calls)
  case 0
  then show ?case by auto
next
  case (Suc n)
  show ?case
  proof (cases "backend calls (Single text)")
    case None
    then have "retry_embedding n backend (calls @ [Single text]) text = (r, calls')"
      using Suc.prems by (simp add: embed_once_def embeddings_create_def)
    then show ?thesis by (rule Suc.IH)
  next
    case (Some vs)
    show ?thesis
    proof (cases vs)
      case Nil
      then have "retry_embedding n backend (calls @ [Single text]) text = (r, calls')"
        using Suc.prems Some by (simp add: embed_once_def embeddings_create_def)
      then show ?thesis by (rule Suc.IH)
    next
      case (Cons v vs')
      then have "r = Inr v"
        using Suc.prems Some by (simp add: embed_once_def embeddings_create_def)
      moreover have "answered backend text v"
        using Some Cons by (auto simp: answered_def)
      ultimately show ?thesis by simp
    qed
  qed
qed

lemma generate_embedding_result:
  "embedded_or_zero backend text
     (case fst (generate_embedding backend calls text) of Inr v \<Rightarrow> v | Inl e \<Rightarrow> zero_vector)"
proof (cases "fst (generate_embedding backend calls text)")
  case (Inl e)
  have "generate_embedding backend calls text = (Inl e, snd (generate_embedding backend calls text))"
    using Inl by (metis prod.collapse)
  then have "e = RetryError"
    using retry_embedding_result[of 3 backend calls "text" "Inl e"]
    by (simp add: generate_embedding_def)
  then show ?thesis using Inl by (auto simp: embedded_or_zero_def)
next
  case (Inr v)
  have "generate_embedding backend calls text = (Inr v, snd (generate_embedding backend calls text))"
    using Inr by (metis prod.collapse)
  then have "answered backend text v"
    using retry_embedding_result[of 3 backend calls "text" "Inr v"]
    by (simp add: generate_embedding_def)
  then show ?thesis using Inr by (simp add: embedded_or_zero_def)
qed

lemma embed_individually_spec:
  "\<exists>vs. fst (embed_individually backend calls acc texts) = acc @ vs
        \<and> list_all2 (embedded_or_zero backend) texts vs"
proof (induction texts arbitrary: calls acc)
  case Nil
  then show ?case by simp
next
  case (Cons t rest)
  obtain r calls' where g: "generate_embedding backend calls t = (r, calls')"
    by (cases "generate_embedding backend calls t") auto
  let ?v = "case r of Inr v \<Rightarrow> v | Inl e \<Rightarrow> zero_vector"
  have step: "embed_individually backend calls acc (t # rest)
                = embed_individually backend calls' (acc @ [?v]) rest"
    using g by (cases r) simp_all
  have ok: "embedded_or_zero backend t ?v"
    using generate_embedding_result[of backend t calls] g by simp
  from Cons.IH[of calls' "acc @ [?v]"] obtain vs where
    vs: "fst (embed_individually backend calls' (acc @ [?v]) rest) = (acc @ [?v]) @ vs"
        "list_all2 (embedded_or_zero backend) rest vs"
    by blast
  show ?case
    apply (rule exI[of _ "?v # vs"])
    using step vs ok by simp
qed

lemma batch_answered:
  assumes "backend calls (Batch batch) = Some vs" and "length vs = length batch"
  shows "list_all2 (embedded_or_zero backend) batch vs"
proof -
  have "embedded_or_zero backend (batch ! k) (vs ! k)" if "k < length batch" for k
  proof -
    have "\<exists>calls b ws j. backend calls (Batch b) = Some ws
            \<and> j < length b \<and> b ! j = batch ! k \<and> ws ! j = vs ! k"
      using assms(1) that by blast
    then show ?thesis by (simp add: embedded_or_zero_def answered_def)
  qed
  then show ?thesis using assms(2) by (simp add: list_all2_conv_all_nth)
qed

lemma batch_loop_spec:
  assumes contract:
    "\<forall>calls batch vs. backend calls (Batch batch) = Some vs \<longrightarrow> length vs = length batch"
  shows "\<exists>vs. fst (batch_loop backend calls acc texts) = acc @ vs
        \<and> list_all2 (embedded_or_zero backend) texts vs"
proof (induction "length texts" arbitrary: texts calls acc rule: less_induct)
  case less
  show ?case
  proof (cases "texts = []")
    case True
    then show ?thesis by (subst batch_loop.simps) simp
  next
    case False
    let ?batch = "take max_batch_size texts"
    let ?rest = "drop max_batch_size texts"
    let ?calls1 = "calls @ [Batch ?batch]"
    have shorter: "length ?rest < length texts"
      using False by (simp add: max_batch_size_def)
    have whole: "?batch @ ?rest = texts"
      by simp
    show ?thesis
    proof (cases "backend calls (Batch ?batch)")
      case (Some bvs)
      have unfold: "batch_loop backend calls acc texts
                      = batch_loop backend ?calls1 (acc @ bvs) ?rest"
        using False Some by (subst batch_loop.simps) (simp add: embeddings_create_def)
      from less[OF shorter, of ?calls1 "acc @ bvs"] obtain ws where
        ws: "fst (batch_loop backend ?calls1 (acc @ bvs) ?rest) = (acc @ bvs) @ ws"
            "list_all2 (embedded_or_zero backend) ?rest ws"
        by blast
      have "length bvs = length ?batch"
        using contract Some by blast
      then have "list_all2 (embedded_or_zero backend) ?batch bvs"
        using Some by (rule batch_answered[rotated])
      then have "list_all2 (embedded_or_zero backend) (?batch @ ?rest) (bvs @ ws)"
        using ws(2) by (rule list_all2_appendI)
      then have all: "list_all2 (embedded_or_zero backend) texts (bvs @ ws)"
        by (simp only: whole)
      show ?thesis
        apply (rule exI[of _ "bvs @ ws"])
        using unfold ws(1) all by simp
    next
      case None
      obtain res1 calls2 where e: "embed_individually backend ?calls1 acc ?batch = (res1, calls2)"
        by (cases "embed_individually backend ?calls1 acc ?batch") auto
      from embed_individually_spec[of backend ?calls1 acc ?batch] e obtain vs1 where
        vs1: "res1 = acc @ vs1" "list_all2 (embedded_or_zero backend) ?batch vs1"
        by auto
      have unfold: "batch_loop backend calls acc texts = batch_loop backend calls2 res1 ?rest"
        using False None e by (subst batch_loop.simps) (simp add: embeddings_create_def)
      from less[OF shorter, of calls2 res1] obtain ws where
        ws: "fst (batch_loop backend calls2 res1 ?rest) = res1 @ ws"
            "list_all2 (embedded_or_zero backend) ?rest ws"
        by blast
      have "list_all2 (embedded_or_zero backend) (?batch @ ?rest) (vs1 @ ws)"
        using vs1(2) ws(2) by (rule list_all2_appendI)
      then have all: "list_all2 (embedded_or_zero backend) texts (vs1 @ ws)"
        by (simp only: whole)
      show ?thesis
        apply (rule exI[of _ "vs1 @ ws"])
        using unfold ws(1) vs1(1) all by simp
    qed
  qed
qed

text \<open>
  Claim C6 (batch embedding). The backend is assumed to keep its contract for batch
  requests: a successful reply holds one vector per input. Then, for every list of texts
  and whatever the backend does otherwise, \<open>generate_embeddings_batch\<close> returns (it has no
  failing branch) a list as long as the input, whose i-th vector is the backend's embedding
  of the i-th text or, when the single-item embedding of that text failed after its three
  attempts, the zero vector of 1536 components; on the empty list it returns the empty list
  and issues no request.
\<close>

theorem generate_embeddings_batch_aligned:
  assumes "\<forall>calls batch vs. backend calls (Batch batch) = Some vs \<longrightarrow> length vs = length batch"
  shows "length (fst (generate_embeddings_batch backend calls texts)) = length texts
       \<and> list_all2 (\<lambda>text v. answered backend text v
             \<or> (v = zero_vector
                \<and> (\<exists>calls. fst (generate_embedding backend calls text) = Inl RetryError)))
           texts (fst (generate_embeddings_batch backend calls texts))
       \<and> length zero_vector = 1536
       \<and> generate_embeddings_batch backend calls [] = ([], calls)"
proof -
  from batch_loop_spec[OF assms, of calls "[]" texts] obtain vs where
    vs: "fst (batch_loop backend calls [] texts) = vs"
        "list_all2 (embedded_or_zero backend) texts vs"
    by auto
  have aligned: "list_all2 (\<lambda>text v. answered backend text v
             \<or> (v = zero_vector
                \<and> (\<exists>calls. fst (generate_embedding backend calls text) = Inl RetryError)))
           texts (fst (generate_embeddings_batch backend calls texts))"
    using vs by (simp add: generate_embeddings_batch_def embedded_or_zero_def[abs_def])
  then have len: "length (fst (generate_embeddings_batch backend calls texts)) = length texts"
    by (simp add: list_all2_lengthD)
  have zero: "length zero_vector = 1536"
    by (simp add: zero_vector_def)
  have empty: "generate_embeddings_batch backend calls [] = ([], calls)"
    unfolding generate_embeddings_batch_def by (subst batch_loop.simps) simp
  from len aligned zero empty show ?thesis by (intro conjI)
qed

theorem generate_embeddings_batch_aligned_witness:
  "length (fst (generate_embeddings_batch sample_backend [] [''ok'', ''bad''])) = length [''ok'', ''bad'']
   \<and> list_all2 (\<lambda>text v. answered sample_backend text v
             \<or> (v = zero_vector
                \<and> (\<exists>calls. fst (generate_embedding sample_backend calls text) = Inl RetryError)))
           [''ok'', ''bad''] (fst (generate_embeddings_batch sample_backend [] [''ok'', ''bad'']))
   \<and> length zero_vector = 1536
   \<and> generate_embeddings_batch sample_backend [] [] = ([], [])"
proof -
  have h: "\<forall>calls batch vs. sample_backend calls (Batch batch) = Some vs \<longrightarrow> length vs = length batch"
    by (auto simp: sample_backend_def split: if_splits)
  show ?thesis
    by (rule generate_embeddings_batch_aligned[OF h, of "[]" "[''ok'', ''bad'']"])
qed

lemma sample_run:
  "fst (generate_embeddings_batch sample_backend [] [''ok'', ''bad'']) = [[2], zero_vector]"
  by code_simp

lemma np_norm_zero_iff: "np_norm a = 0 \<longleftrightarrow> (\<forall>x\<in>set a. x = 0)"
proof -
  have nonneg: "0 \<le> sum_list (map (\<lambda>x. x * x) xs)" for xs :: "real list"
    by (induction xs) simp_all
  have "sum_list (map (\<lambda>x. x * x) a) = 0 \<longleftrightarrow> (\<forall>x\<in>set a. x = 0)"
  proof (induction a)
    case Nil
    then show ?case by simp
  next
    case (Cons x xs)
    have "x * x + sum_list (map (\<lambda>x. x * x) xs) = 0
            \<longleftrightarrow> x * x = 0 \<and> sum_list (map (\<lambda>x. x * x) xs) = 0"
      using nonneg[of xs] by (simp add: add_nonneg_eq_0_iff)
    then show ?case using Cons.IH by simp
  qed
  then show ?thesis by (simp add: np_norm_def)
qed

text \<open>
  Claim C7 as stated (for every pair of vectors the call never fails) does not hold for
  vectors of different lengths: the dot product is computed first and raises.
\<close>

theorem cosine_similarity_shape_counterexample:
  "cosine_similarity [0] [1, 2] = Inl ValueError"
  by (simp add: cosine_similarity_def np_dot_def)

text \<open>
  Claim C7, amended. For every pair of vectors of equal length, \<open>cosine_similarity\<close>
  returns a finite number and never fails; the number is 0 whenever either vector has zero
  norm, in particular when either vector is all zeros, so the division is only performed
  with a non-zero divisor.
\<close>

theorem cosine_similarity_zero_norm:
  assumes "length vec1 = length vec2"
  shows "\<exists>r. cosine_similarity vec1 vec2 = Inr (Finite r)
           \<and> (np_norm vec1 = 0 \<or> np_norm vec2 = 0 \<longrightarrow> r = 0)
           \<and> ((\<forall>x\<in>set vec1. x = 0) \<or> (\<forall>x\<in>set vec2. x = 0) \<longrightarrow> r = 0)"
proof (cases "np_norm vec1 = 0 \<or> np_norm vec2 = 0")
  case True
  then have "cosine_similarity vec1 vec2 = Inr (Finite 0)"
    using assms by (simp add: cosine_similarity_def np_dot_def)
  then show ?thesis by simp
next
  case False
  then have nz: "np_norm vec1 * np_norm vec2 \<noteq> 0"
    by simp
  have "cosine_similarity vec1 vec2
          = Inr (Finite (sum_list (map2 (*) vec1 vec2) / (np_norm vec1 * np_norm vec2)))"
    using assms False nz by (simp add: cosine_similarity_def np_dot_def np_divide_def Let_def)
  moreover have "\<not> ((\<forall>x\<in>set vec1. x = 0) \<or> (\<forall>x\<in>set vec2. x = 0))"
    using False by (simp add: np_norm_zero_iff)
  ultimately show ?thesis using False by blast
qed

theorem cosine_similarity_zero_norm_witness:
  "length [0, 0 :: real] = length [3, 4 :: real]
   \<and> (\<exists>r. cosine_similarity [0, 0] [3, 4] = Inr (Finite r)
           \<and> (np_norm [0, 0] = 0 \<or> np_norm [3, 4] = 0 \<longrightarrow> r = 0)
           \<and> ((\<forall>x\<in>set [0, 0 :: real]. x = 0) \<or> (\<forall>x\<in>set [3, 4 :: real]. x = 0) \<longrightarrow> r = 0))"
proof -
  have h: "length [0, 0 :: real] = length [3, 4 :: real]"
    by simp
  show ?thesis
    using h cosine_similarity_zero_norm[OF h]
    by (rule conjI)
qed

section \<open>Properties of the FAISS vector database\<close>

lemma add_loop_parts:
  "add_loop d (docs, embs, ws) ds
     = (foldl (\<lambda>acc doc. AList.update (doc_id_of acc doc) (stored_of doc) acc) docs ds,
        embs @ map (\<lambda>doc. pad_or_truncate d (embedding_of doc)) ds,
        ws @ map (\<lambda>doc. Embedding_dimension_mismatch d (length (embedding_of doc)))
               (filter (\<lambda>doc. length (embedding_of doc) \<noteq> d) ds))"
  by (induction ds arbitrary: docs embs ws) (simp_all add: Let_def)

lemma keys_update:
  "map fst (AList.update k v al) = (if k \<in> set (map fst al) then map fst al else map fst al @ [k])"
  by (induction al) auto

lemma keys_foldl:
  "map fst (foldl (\<lambda>acc doc. AList.update (doc_id_of acc doc) (stored_of doc) acc) docs ds)
     = keys_after (map fst docs) (assigned_ids docs ds)"
  by (induction ds arbitrary: docs) (simp_all add: keys_update)


lemma keys_after_set: "set (keys_after ks L) = set ks \<union> set L"
  by (induction L arbitrary: ks) auto




lemma add_documents_parts:
  "fst (add_documents db docs)
     = db\<lparr>documents := foldl (\<lambda>acc doc. AList.update (doc_id_of acc doc) (stored_of doc) acc)
                          (documents db) docs,
          index := index db @ map (\<lambda>doc. normalize_L2 (pad_or_truncate (dimension db) (embedding_of doc))) docs\<rparr>"
  "snd (add_documents db docs)
     = map (\<lambda>doc. Embedding_dimension_mismatch (dimension db) (length (embedding_of doc)))
           (filter (\<lambda>doc. length (embedding_of doc) \<noteq> dimension db) docs)"
  by (simp_all add: add_documents_def add_loop_parts comp_def)

lemma length_normalize_L2: "length (normalize_L2 v) = length v"
  by (simp add: normalize_L2_def Let_def)

lemma length_pad_or_truncate: "length (pad_or_truncate d e) = d"
  by (simp add: pad_or_truncate_def)

lemma normalize_L2_zero: "i < length v \<Longrightarrow> v ! i = 0 \<Longrightarrow> normalize_L2 v ! i = 0"
  by (simp add: normalize_L2_def Let_def)



text \<open>
  Claim C8 (dimension repair). For every database state and every list of entries,
  \<open>add_documents\<close> appends one row per entry, in order, and has no failing branch. Every
  stored row has exactly the configured dimension. For an entry whose embedding is shorter
  the row is the normalized zero-padded embedding, zero from the embedding's length on; for
  one whose embedding is longer it is the normalized truncated embedding. One warning is
  logged per entry whose embedding length differs from the dimension, and every entry's id
  is in the metadata store afterwards.
\<close>

theorem add_documents_repairs_dimension:
  "index (fst (add_documents db docs))
     = index db @ map (\<lambda>doc. normalize_L2 (pad_or_truncate (dimension db) (embedding_of doc))) docs
   \<and> (\<forall>doc\<in>set docs.
        length (normalize_L2 (pad_or_truncate (dimension db) (embedding_of doc))) = dimension db
      \<and> (length (embedding_of doc) < dimension db \<longrightarrow>
            pad_or_truncate (dimension db) (embedding_of doc)
              = embedding_of doc @ replicate (dimension db - length (embedding_of doc)) 0
          \<and> (\<forall>i. length (embedding_of doc) \<le> i \<and> i < dimension db \<longrightarrow>
                 normalize_L2 (pad_or_truncate (dimension db) (embedding_of doc)) ! i = 0))
      \<and> (length (embedding_of doc) > dimension db \<longrightarrow>
            pad_or_truncate (dimension db) (embedding_of doc)
              = take (dimension db) (embedding_of doc)))
   \<and> snd (add_documents db docs)
       = map (\<lambda>doc. Embedding_dimension_mismatch (dimension db) (length (embedding_of doc)))
           (filter (\<lambda>doc. length (embedding_of doc) \<noteq> dimension db) docs)
   \<and> set (assigned_ids (documents db) docs)
       \<subseteq> set (map fst (documents (fst (add_documents db docs))))"
proof -
  have rows: "index (fst (add_documents db docs))
     = index db @ map (\<lambda>doc. normalize_L2 (pad_or_truncate (dimension db) (embedding_of doc))) docs"
    by (simp add: add_documents_parts)
  have each: "length (normalize_L2 (pad_or_truncate d e)) = d
      \<and> (length e < d \<longrightarrow>
            pad_or_truncate d e = e @ replicate (d - length e) 0
          \<and> (\<forall>i. length e \<le> i \<and> i < d \<longrightarrow> normalize_L2 (pad_or_truncate d e) ! i = 0))
      \<and> (length e > d \<longrightarrow> pad_or_truncate d e = take d e)" for d and e :: vector
  proof (intro conjI impI allI)
    show "length (normalize_L2 (pad_or_truncate d e)) = d"
      by (simp add: length_normalize_L2 length_pad_or_truncate)
    show "pad_or_truncate d e = e @ replicate (d - length e) 0" if "length e < d"
      using that by (simp add: pad_or_truncate_def)
    show "normalize_L2 (pad_or_truncate d e) ! i = 0"
      if "length e < d" and "length e \<le> i \<and> i < d" for i
    proof (rule normalize_L2_zero)
      show "i < length (pad_or_truncate d e)"
        using that by (simp add: length_pad_or_truncate)
      have "i - length e < d - length e"
        using that by arith
      then show "pad_or_truncate d e ! i = 0"
        using that by (simp add: pad_or_truncate_def nth_append)
    qed
    show "pad_or_truncate d e = take d e" if "length e > d"
      using that by (simp add: pad_or_truncate_def)
  qed
  have warn: "snd (add_documents db docs)
       = map (\<lambda>doc. Embedding_dimension_mismatch (dimension db) (length (embedding_of doc)))
           (filter (\<lambda>doc. length (embedding_of doc) \<noteq> dimension db) docs)"
    by (rule add_documents_parts)
  have stored: "set (assigned_ids (documents db) docs)
       \<subseteq> set (map fst (documents (fst (add_documents db docs))))"
    by (simp add: add_documents_parts keys_foldl keys_after_set del: set_map)
  show ?thesis
    using rows each warn stored by (intro conjI ballI) blast+
qed

theorem add_documents_repairs_dimension_witness:
  "index (fst (add_documents new_faiss [doc_a])) = [normalize_L2 (pad_or_truncate 1536 [3, 4])]
   \<and> length (normalize_L2 (pad_or_truncate 1536 [3, 4])) = 1536
   \<and> pad_or_truncate 1536 [3, 4] = [3, 4] @ replicate 1534 0
   \<and> normalize_L2 (pad_or_truncate 1536 [3, 4]) ! 2 = 0
   \<and> snd (add_documents new_faiss [doc_a]) = [Embedding_dimension_mismatch 1536 2]
   \<and> ''a'' \<in> set (map fst (documents (fst (add_documents new_faiss [doc_a]))))"
proof -
  have e: "embedding_of doc_a = [3, 4]"
    by (simp add: embedding_of_def doc_a_def)
  have d: "dimension new_faiss = 1536" and i: "index new_faiss = []"
    by (simp_all add: new_faiss_def)
  have ids: "assigned_ids (documents new_faiss) [doc_a] = [''a'']"
    by (simp add: doc_id_of_def doc_a_def)
  have mem: "doc_a \<in> set [doc_a]"
    by simp
  have short: "length (embedding_of doc_a) < dimension new_faiss"
    by (simp add: e d)
  note T = add_documents_repairs_dimension[of new_faiss "[doc_a]"]
  note row = T[THEN conjunct2, THEN conjunct1, THEN bspec, OF mem]
  note padded = row[THEN conjunct2, THEN conjunct1, THEN mp, OF short]
  have c1: "index (fst (add_documents new_faiss [doc_a]))
              = [normalize_L2 (pad_or_truncate 1536 [3, 4])]"
    using T[THEN conjunct1] by (simp only: e d i list.map append_Nil)
  have c2: "length (normalize_L2 (pad_or_truncate 1536 [3, 4])) = 1536"
    using row[THEN conjunct1] by (simp only: e d)
  have c3: "pad_or_truncate 1536 [3, 4] = [3, 4] @ replicate 1534 0"
    using padded[THEN conjunct1] by (simp add: e d)
  have c4: "normalize_L2 (pad_or_truncate 1536 [3, 4]) ! 2 = 0"
    using padded[THEN conjunct2, rule_format, of 2] by (simp add: e d)
  have c5: "snd (add_documents new_faiss [doc_a]) = [Embedding_dimension_mismatch 1536 2]"
    using T[THEN conjunct2, THEN conjunct2, THEN conjunct1] by (simp add: e d)
  have c6: "''a'' \<in> set (map fst (documents (fst (add_documents new_faiss [doc_a]))))"
    using T[THEN conjunct2, THEN conjunct2, THEN conjunct2] by (simp only: ids) simp
  from c1 c2 c3 c4 c5 c6 show ?thesis
    by (intro conjI)
qed



text \<open>
  Claim C2 (index and metadata store in lock-step). The claim: after every operation the
  ids of the vector index and of the metadata store are the same, in particular after
  \<open>delete_documents\<close>. The code: \<open>_rebuild_index\<close>, documented as rebuilding the index
  from the existing documents, replaces the index by an empty one and can only log that it
  cannot restore the rows. After adding entries a and b and deleting a, the store still holds
  b, the index holds no row, and a search finds nothing.
\<close>

theorem delete_documents_empties_index:
  "length (index (fst (add_documents new_faiss [doc_a, doc_b]))) = 2
   \<and> map fst (documents (fst (add_documents new_faiss [doc_a, doc_b]))) = [''a'', ''b'']
   \<and> index (fst (delete_documents (fst (add_documents new_faiss [doc_a, doc_b])) [''a''])) = []
   \<and> map fst (documents (fst (delete_documents (fst (add_documents new_faiss [doc_a, doc_b])) [''a''])))
       = [''b'']
   \<and> count_documents (fst (delete_documents (fst (add_documents new_faiss [doc_a, doc_b])) [''a''])) = 1
   \<and> snd (delete_documents (fst (add_documents new_faiss [doc_a, doc_b])) [''a''])
       = [Cannot_rebuild_without_stored_embeddings]
   \<and> search isearch (fst (delete_documents (fst (add_documents new_faiss [doc_a, doc_b])) [''a'']))
        query_embedding top_k = []"
  by (simp add: add_documents_parts new_faiss_def doc_id_of_def doc_a_def doc_b_def
      delete_documents_def rebuild_index_def count_documents_def search_def stored_of_def Let_def)

section \<open>Properties of the indexing service\<close>

lemma initialize_sample: "vector_service_initialize sample_settings None = Inr new_faiss"
  by code_simp

lemma select_loop_absent:
  "select_loop md5 new_faiss source_id False acc chunk_list = acc"
proof (induction chunk_list arbitrary: acc)
  case Nil
  then show ?case by simp
next
  case (Cons c rest)
  obtain ts cs n where acc: "acc = (ts, cs, n)"
    by (cases acc) auto
  have "get_document new_faiss (generate_chunk_id source_id c) = None"
    by (simp add: get_document_def new_faiss_def)
  then show ?case
    using Cons.IH[of "(ts, cs, n)"] by (simp add: acc Let_def)
qed

text \<open>
  Claim C1 (first run indexes every chunk). The claim: with \<open>force_reindex = False\<close> and
  no entry stored for any chunk id, the first call embeds and stores every chunk, so
  \<open>indexed = N\<close> and \<open>skipped = 0\<close>. The code: the \<^verbatim>\<open>else\<close> that appends a chunk to the
  work list belongs to \<^verbatim>\<open>if not force_reindex\<close>, not to \<^verbatim>\<open>if existing\<close>, so a chunk
  without an existing entry is neither selected nor counted as skipped. On a service that
  has not indexed anything yet, for every list of chunks, every source id and every
  backend, the call reports \<open>indexed = 0\<close> and \<open>skipped = 0\<close>, issues no embedding request
  and leaves the index empty.
\<close>

theorem index_chunks_first_run_indexes_nothing:
  "index_chunks sample_settings None md5 backend \<lparr>vector_db = None, issued = []\<rparr>
       chunk_list source_id False
     = (Inr \<lparr>total_chunks = length chunk_list, indexed = 0, skipped = 0, failed = 0\<rparr>,
        \<lparr>vector_db = Some new_faiss, issued = []\<rparr>)"
  by (simp add: index_chunks_def ensure_initialized_def initialize_sample select_loop_absent)

section \<open>Properties of retrieval and answering\<close>

lemma failing_query_embedding:
  "fst (generate_query_embedding failing_backend [] ''hello'') = Inl RetryError"
  by code_simp

lemma blank_query_embedding:
  "fst (generate_query_embedding sample_backend [] '' '') = Inl ValueError"
  by code_simp

lemma sample_query_embedding:
  "generate_query_embedding sample_backend [] ''hello'' = (Inr [5], [Single ''hello''])"
  by code_simp

text \<open>
  Claim C9 as stated (every non-empty query against an empty index gets the fixed reply)
  fails in two ways: when the embedding of the query fails after its three attempts, and
  when the query consists of whitespace only; in both \<open>query\<close> raises.
\<close>

theorem query_raises_counterexample:
  "fst (query sample_settings None failing_backend no_search no_generation []
          \<lparr>vector_db = Some new_faiss, issued = []\<rparr> ''hello'' 5 (7 / 10) None)
     = Inl RetryError
   \<and> fst (query sample_settings None sample_backend no_search no_generation []
          \<lparr>vector_db = Some new_faiss, issued = []\<rparr> '' '' 5 (7 / 10) None)
     = Inl ValueError"
proof -
  have a: "fst (query sample_settings None failing_backend no_search no_generation []
          \<lparr>vector_db = Some new_faiss, issued = []\<rparr> ''hello'' 5 (7 / 10) None)
     = Inl RetryError"
    using failing_query_embedding
    by (cases "generate_query_embedding failing_backend [] ''hello''")
       (simp add: query_def ensure_initialized_def)
  have b: "fst (query sample_settings None sample_backend no_search no_generation []
          \<lparr>vector_db = Some new_faiss, issued = []\<rparr> '' '' 5 (7 / 10) None)
     = Inl ValueError"
    using blank_query_embedding
    by (cases "generate_query_embedding sample_backend [] '' ''")
       (simp add: query_def ensure_initialized_def)
  from a b show ?thesis by (rule conjI)
qed

text \<open>
  Claim C9, amended. For every query whose embedding succeeds (so the query is non-empty
  after trimming), asked when the vector database, initialized on demand, holds an index of
  zero rows, \<open>query\<close> returns the fixed reply with an empty list of sources as a normal
  result; and \<open>search\<close> on an index of zero rows returns the empty list for every query
  vector and every \<open>top_k\<close>, without raising.
\<close>

theorem query_on_empty_index:
  assumes "ensure_initialized cfg stored (vector_db st) = Inr db"
    and "index db = []"
    and "generate_query_embedding backend (issued st) q = (Inr v, issued')"
  shows "query cfg stored backend isearch generate now st q top_k temperature max_tokens_arg
           = (Inr \<lparr>answer = No_relevant_information, sources = [],
                   model_used = openai_model_chat cfg, asked = q, timestamp = None\<rparr>,
              \<lparr>vector_db = Some db, issued = issued'\<rparr>)
       \<and> search isearch db query_embedding k = []
       \<and> strip q \<noteq> []"
proof -
  have empty: "search isearch db qe n = []" for qe n
    using assms(2) by (simp add: search_def)
  have "query cfg stored backend isearch generate now st q top_k temperature max_tokens_arg
           = (Inr \<lparr>answer = No_relevant_information, sources = [],
                   model_used = openai_model_chat cfg, asked = q, timestamp = None\<rparr>,
              \<lparr>vector_db = Some db, issued = issued'\<rparr>)"
    using assms(1,3) empty by (simp add: query_def Let_def)
  moreover have "strip q \<noteq> []"
    using assms(3) by (auto simp: generate_query_embedding_def Let_def split: if_splits)
  ultimately show ?thesis using empty by simp
qed

theorem query_on_empty_index_witness:
  "query sample_settings None sample_backend no_search no_generation []
       \<lparr>vector_db = None, issued = []\<rparr> ''hello'' 5 (7 / 10) None
     = (Inr \<lparr>answer = No_relevant_information, sources = [],
             model_used = openai_model_chat sample_settings, asked = ''hello'',
             timestamp = None\<rparr>,
        \<lparr>vector_db = Some new_faiss, issued = [Single ''hello'']\<rparr>)
   \<and> search no_search new_faiss [5] 5 = []"
proof -
  have h1: "ensure_initialized sample_settings None (vector_db \<lparr>vector_db = None, issued = []\<rparr>)
              = Inr new_faiss"
    by (simp add: ensure_initialized_def initialize_sample)
  have h2: "index new_faiss = []"
    by (simp add: new_faiss_def)
  have h3: "generate_query_embedding sample_backend (issued \<lparr>vector_db = None, issued = []\<rparr>) ''hello''
              = (Inr [5], [Single ''hello''])"
    by (simp add: sample_query_embedding)
  note T = query_on_empty_index[OF h1 h2 h3, of no_search no_generation "[]" 5 "7 / 10" None "[5]" 5]
  show ?thesis
    using T[THEN conjunct1] T[THEN conjunct2, THEN conjunct1] by (rule conjI)
qed

end
